theory Spec2Isabelle
  imports Main
begin

section \<open>The user registry (package users)\<close>

text \<open>
  The embedding follows \<^verbatim>\<open>users.go\<close> of package \<^verbatim>\<open>users\<close> in the revision that
  declares \<^verbatim>\<open>ErrNoResultFound\<close> and \<^verbatim>\<open>GetUserByName\<close>, the one that
  \<^verbatim>\<open>TestAddUserDuplicateName\<close> and \<^verbatim>\<open>TestGetUserByName\<close> exercise. An earlier
  revision of the file, from before the lookup and the duplicate check were written, is
  not modelled.

  Go strings are byte sequences and so are HOL strings; \<^verbatim>\<open>==\<close> on Go strings is
  equality of the byte sequences.
\<close>

subsection \<open>Data\<close>

text \<open>
  \<^verbatim>\<open>mail.Address\<close> of the standard library,
  \<^verbatim>\<open>type Address struct { Name string; Address string }\<close>: a display name and
  an address. Its fields carry a prefix here, since \<^verbatim>\<open>UserData\<close> of package main has
  a field \<^verbatim>\<open>Name\<close> too.
\<close>

record mail_Address =
  Addr_Name :: string
  Addr_Address :: string

text \<open>\<^verbatim>\<open>type User struct { FirstName string; LastName string; Email mail.Address }\<close>\<close>

record User =
  FirstName :: string
  LastName :: string
  Email :: mail_Address

text \<open>\<^verbatim>\<open>type Manager struct { users []User }\<close>\<close>

record Manager =
  users :: "User list"

text \<open>
  The error values of the package. \<^verbatim>\<open>ErrNoResultFound\<close> is the package-level
  sentinel \<^verbatim>\<open>errors.New("no result found")\<close>; the others are the values built
  inside \<^verbatim>\<open>AddUser\<close>, each carrying the argument of its format string:
  \<^item> \<open>InvalidFirstName s\<close>: \<^verbatim>\<open>fmt.Errorf("invalid first name: %q", firstName)\<close>
  \<^item> \<open>InvalidLastName s\<close>: \<^verbatim>\<open>fmt.Errorf("invalid last name: %q", lastName)\<close>
  \<^item> \<open>GetUserFailed e\<close>: \<^verbatim>\<open>fmt.Errorf("error getting user by name: %v", err)\<close>
  \<^item> \<open>UserAlreadyExists\<close>: \<^verbatim>\<open>errors.New("user already exists")\<close>
  \<^item> \<open>InvalidEmail s\<close>: \<^verbatim>\<open>fmt.Errorf("invalid email: %s", email)\<close>
  A Go value of type \<^verbatim>\<open>error\<close> is \<open>error option\<close>, with \<open>None\<close> for \<^verbatim>\<open>nil\<close>.
\<close>

datatype error =
    ErrNoResultFound
  | InvalidFirstName string
  | InvalidLastName string
  | GetUserFailed error
  | UserAlreadyExists
  | InvalidEmail string

text \<open>
  \<^verbatim>\<open>errors.Is(err, target)\<close>: none of the errors above wraps another one
  (\<^verbatim>\<open>%v\<close> formats, it does not wrap), so the unwrap chain of \<open>err\<close> is \<open>err\<close> alone,
  and a \<^verbatim>\<open>nil\<close> error is no target.
\<close>

fun errors_Is :: "error option \<Rightarrow> error \<Rightarrow> bool" where
  "errors_Is None target = False"
| "errors_Is (Some e) target = (e = target)"

text \<open>
  A \<^verbatim>\<open>*User\<close> returned by the lookup is \<^verbatim>\<open>&m.users[i]\<close>: the position \<open>i\<close> in
  the registry's sequence, \<open>None\<close> for \<^verbatim>\<open>nil\<close>.
\<close>

type_synonym User_ptr = "nat option"

subsection \<open>Operations\<close>

text \<open>\<^verbatim>\<open>func NewManager() *Manager { return &Manager{} }\<close>\<close>

definition NewManager :: Manager where
  "NewManager = \<lparr>users = []\<rparr>"

text \<open>
  The loop of \<^verbatim>\<open>GetUserByName\<close>, \<^verbatim>\<open>for i, user := range m.users\<close>: \<open>i\<close> is the
  index of the head of the part still to be scanned. The loop returns at the first
  element whose two name fields equal the arguments.
\<close>

fun scan :: "nat \<Rightarrow> User list \<Rightarrow> string \<Rightarrow> string \<Rightarrow> nat option" where
  "scan i [] first last' = None"
| "scan i (user # rest) first last' =
     (if FirstName user = first \<and> LastName user = last' then Some i
      else scan (Suc i) rest first last')"

text \<open>
  \<^verbatim>\<open>func (m *Manager) GetUserByName(first string, last string) (*User, error)\<close>.
  Every operation on the registry returns the registry after the call next to its
  results.
\<close>

definition GetUserByName ::
  "Manager \<Rightarrow> string \<Rightarrow> string \<Rightarrow> Manager \<times> User_ptr \<times> error option" where
  "GetUserByName m first last' =
     (case scan 0 (users m) first last' of
        Some i \<Rightarrow> (m, Some i, None)
      | None \<Rightarrow> (m, None, Some ErrNoResultFound))"

text \<open>
  \<^verbatim>\<open>func (m *Manager) AddUser(firstName string, lastName string, email string) error\<close>.
  \<^verbatim>\<open>mail.ParseAddress\<close> belongs to the standard library and is a parameter:
  \<open>ParseAddress email = None\<close> when it returns an error, \<open>Some a\<close> when it returns the
  address \<open>a\<close>.
\<close>

definition AddUser ::
  "(string \<Rightarrow> mail_Address option) \<Rightarrow> Manager \<Rightarrow> string \<Rightarrow> string \<Rightarrow> string
     \<Rightarrow> Manager \<times> error option" where
  "AddUser ParseAddress m firstName lastName email =
     (if firstName = [] then (m, Some (InvalidFirstName firstName))
      else if lastName = [] then (m, Some (InvalidLastName lastName))
      else
        (case GetUserByName m firstName lastName of
           (m1, existinguser, err) \<Rightarrow>
             if err \<noteq> None \<and> \<not> errors_Is err ErrNoResultFound
             then (m1, Some (GetUserFailed (the err)))
             else if existinguser \<noteq> None then (m1, Some UserAlreadyExists)
             else
               (case ParseAddress email of
                  None \<Rightarrow> (m1, Some (InvalidEmail email))
                | Some parsedAddress \<Rightarrow>
                    (m1\<lparr>users := users m1 @
                        [\<lparr>FirstName = firstName, LastName = lastName,
                          Email = parsedAddress\<rparr>]\<rparr>,
                     None))))"

text \<open>Reading a \<^verbatim>\<open>*User\<close> in a registry state: \<^verbatim>\<open>*p\<close>, defined for a pointer
  into the sequence only.\<close>

definition deref :: "Manager \<Rightarrow> User_ptr \<Rightarrow> User option" where
  "deref m p =
     (case p of
        None \<Rightarrow> None
      | Some i \<Rightarrow> if i < length (users m) then Some (users m ! i) else None)"

text \<open>
  A parser for concrete evaluations. It gives the results of \<^verbatim>\<open>mail.ParseAddress\<close>
  on the bare addresses of \<^verbatim>\<open>users_test.go\<close>, on \<^verbatim>\<open><foo@bar.com>\<close> (what
  \<^verbatim>\<open>testEmail.String()\<close> of those tests passes) and on an address with a display name,
  and rejects \<^verbatim>\<open>"foobar"\<close> of \<^verbatim>\<open>TestAddUserInvalidEmail\<close>. It is used at these
  strings only.
\<close>

definition test_ParseAddress :: "string \<Rightarrow> mail_Address option" where
  "test_ParseAddress email =
     (if email \<in> set [''foo@bar.com'', ''f.foo@bar.com'', ''bar@bar.com'',
                      ''barz@bar.com'', ''fooz@bar.com'']
      then Some \<lparr>Addr_Name = [], Addr_Address = email\<rparr>
      else if email = ''<foo@bar.com>''
      then Some \<lparr>Addr_Name = [], Addr_Address = ''foo@bar.com''\<rparr>
      else if email = ''Jhon Smith <jhon@example.com>''
      then Some \<lparr>Addr_Name = ''Jhon Smith'', Addr_Address = ''jhon@example.com''\<rparr>
      else None)"

text \<open>
  The registry that \<^verbatim>\<open>TestGetUserByName\<close> builds with four calls of
  \<^verbatim>\<open>AddUser\<close>, for concrete evaluations.
\<close>

definition test_users :: "User list" where
  "test_users =
     [\<lparr>FirstName = ''foo'', LastName = ''bar'',
        Email = \<lparr>Addr_Name = [], Addr_Address = ''f.foo@bar.com''\<rparr>\<rparr>,
      \<lparr>FirstName = ''bari'', LastName = ''foo'',
        Email = \<lparr>Addr_Name = [], Addr_Address = ''bar@bar.com''\<rparr>\<rparr>,
      \<lparr>FirstName = ''barz'', LastName = ''foo'',
        Email = \<lparr>Addr_Name = [], Addr_Address = ''barz@bar.com''\<rparr>\<rparr>,
      \<lparr>FirstName = ''fozz'', LastName = ''foo'',
        Email = \<lparr>Addr_Name = [], Addr_Address = ''fooz@bar.com''\<rparr>\<rparr>]"

subsection \<open>The invariant and the reachable states\<close>

text \<open>
  No two records of the sequence have the same (first name, last name) pair, and both
  names of every record are non-empty.
\<close>

definition registry_invariant :: "Manager \<Rightarrow> bool" where
  "registry_invariant m \<longleftrightarrow>
     distinct (map (\<lambda>u. (FirstName u, LastName u)) (users m)) \<and>
     (\<forall>u \<in> set (users m). FirstName u \<noteq> [] \<and> LastName u \<noteq> [])"

text \<open>
  The states a registry can be in: the one \<^verbatim>\<open>NewManager\<close> returns, and the state
  after a call of either method on a reachable state, with any arguments.
\<close>

inductive reachable :: "(string \<Rightarrow> mail_Address option) \<Rightarrow> Manager \<Rightarrow> bool"
  for ParseAddress :: "string \<Rightarrow> mail_Address option" where
  reachable_new: "reachable ParseAddress NewManager"
| reachable_add: "reachable ParseAddress m \<Longrightarrow>
     reachable ParseAddress (fst (AddUser ParseAddress m firstName lastName email))"
| reachable_get: "reachable ParseAddress m \<Longrightarrow>
     reachable ParseAddress (fst (GetUserByName m first last'))"

section \<open>The HTTP handlers (package main)\<close>

subsection \<open>Responses\<close>

text \<open>
  What a handler leaves in its \<^verbatim>\<open>http.ResponseWriter\<close>, as
  \<^verbatim>\<open>httptest.ResponseRecorder\<close> records it: the status code, whether the header has
  been written, and the body. Of the standard library: the first \<^verbatim>\<open>WriteHeader\<close>
  fixes the status, a \<^verbatim>\<open>Write\<close> before any \<^verbatim>\<open>WriteHeader\<close> writes status 200
  first, and \<^verbatim>\<open>http.Error(w, error, code)\<close> is \<^verbatim>\<open>w.WriteHeader(code)\<close> followed
  by \<^verbatim>\<open>fmt.Fprintln(w, error)\<close>. Response headers are left out, and a \<^verbatim>\<open>Write\<close>
  never fails, so the handlers' branches that only log a failed write are left out too.
\<close>

record ResponseWriter =
  Code :: nat
  wroteHeader :: bool
  Body :: string

definition NewRecorder :: ResponseWriter where
  "NewRecorder = \<lparr>Code = 200, wroteHeader = False, Body = []\<rparr>"

definition WriteHeader :: "ResponseWriter \<Rightarrow> nat \<Rightarrow> ResponseWriter" where
  "WriteHeader w code = (if wroteHeader w then w else w\<lparr>Code := code, wroteHeader := True\<rparr>)"

definition Write :: "ResponseWriter \<Rightarrow> string \<Rightarrow> ResponseWriter" where
  "Write w buf = (let w1 = WriteHeader w 200 in w1\<lparr>Body := Body w1 @ buf\<rparr>)"

definition http_Error :: "ResponseWriter \<Rightarrow> string \<Rightarrow> nat \<Rightarrow> ResponseWriter" where
  "http_Error w err code = Write (WriteHeader w code) (err @ ''\<newline>'')"

definition StatusOK :: nat where
  "StatusOK = 200"

definition StatusBadRequest :: nat where
  "StatusBadRequest = 400"

subsection \<open>Handlers\<close>

text \<open>\<^verbatim>\<open>type UserData struct { Name string }\<close>\<close>

record UserData =
  Name :: string

text \<open>
  \<^verbatim>\<open>func handleHello(w http.ResponseWriter, username string)\<close>: the buffer receives
  \<^verbatim>\<open>"Hello "\<close>, the name and \<^verbatim>\<open>"!\n"\<close>, and is written to \<open>w\<close>.
\<close>

definition handleHello :: "ResponseWriter \<Rightarrow> string \<Rightarrow> ResponseWriter" where
  "handleHello w username =
     (let output = [];
          output = output @ ''Hello '';
          output = output @ username;
          output = output @ ''!\<newline>''
      in Write w output)"

text \<open>
  \<^verbatim>\<open>url.Values\<close> is \<^verbatim>\<open>map[string][]string\<close>; reading a key that is absent gives
  the nil slice, of length 0.
\<close>

type_synonym Values = "string \<Rightarrow> string list"

text \<open>
  \<^verbatim>\<open>r.URL.Query()\<close> belongs to the standard library (package \<^verbatim>\<open>net/url\<close>). It
  is \<^verbatim>\<open>ParseQuery(u.RawQuery)\<close> with the error dropped, and is written out here as
  the library has it, since what the handler greets depends on which pairs of the raw
  query string survive the parse.

  \<^verbatim>\<open>strings.Cut(s, sep)\<close> for a one-byte separator: the text before the first
  separator and the text after it; all of \<open>s\<close> and the empty string when there is none.
\<close>

definition Cut :: "string \<Rightarrow> char \<Rightarrow> string \<times> string" where
  "Cut s sep = (takeWhile (\<lambda>c. c \<noteq> sep) s, drop 1 (dropWhile (\<lambda>c. c \<noteq> sep) s))"

text \<open>\<^verbatim>\<open>ishex\<close> and \<^verbatim>\<open>unhex\<close> of \<^verbatim>\<open>net/url\<close>, on the byte values.\<close>

definition ishex :: "char \<Rightarrow> bool" where
  "ishex c \<longleftrightarrow>
     (let b = (of_char c :: nat)
      in (48 \<le> b \<and> b \<le> 57) \<or> (97 \<le> b \<and> b \<le> 102) \<or> (65 \<le> b \<and> b \<le> 70))"

definition unhex :: "char \<Rightarrow> nat" where
  "unhex c =
     (let b = (of_char c :: nat)
      in if 48 \<le> b \<and> b \<le> 57 then b - 48
         else if 97 \<le> b \<and> b \<le> 102 then b - 97 + 10
         else if 65 \<le> b \<and> b \<le> 70 then b - 65 + 10
         else 0)"

text \<open>
  \<^verbatim>\<open>url.QueryUnescape\<close>: \<^verbatim>\<open>%XY\<close> with two hexadecimal digits becomes the byte
  \<^verbatim>\<open>unhex(X)<<4 | unhex(Y)\<close>, \<^verbatim>\<open>+\<close> becomes a blank, every other byte stays. A
  \<^verbatim>\<open>%\<close> that two hexadecimal digits do not follow is an error (\<open>None\<close>). The library
  checks the whole string first and decodes it in a second pass; the two passes are
  one recursion here.
\<close>

fun QueryUnescape :: "string \<Rightarrow> string option" where
  "QueryUnescape [] = Some []"
| "QueryUnescape (c # s) =
     (if c = CHR ''%'' then
        (case s of
           x # y # rest \<Rightarrow>
             if ishex x \<and> ishex y
             then map_option ((#) (char_of (unhex x * 16 + unhex y))) (QueryUnescape rest)
             else None
         | _ \<Rightarrow> None)
      else if c = CHR ''+'' then map_option ((#) CHR '' '') (QueryUnescape s)
      else map_option ((#) c) (QueryUnescape s))"

text \<open>
  The body of the loop of \<^verbatim>\<open>parseQuery\<close> for one \<^verbatim>\<open>&\<close>-separated piece \<open>key\<close> of
  the query: a piece that contains a semicolon, an empty piece, and a piece whose key or
  value does not unescape are skipped (\<^verbatim>\<open>continue\<close>), and leave the map as it is;
  otherwise the value is appended to the slice of the key.
\<close>

definition parseQuery_step :: "Values \<Rightarrow> string \<Rightarrow> Values" where
  "parseQuery_step m key =
     (if CHR '';'' \<in> set key then m
      else if key = [] then m
      else
        (case Cut key (CHR ''='') of
           (key, value) \<Rightarrow>
             (case QueryUnescape key of
                None \<Rightarrow> m
              | Some key \<Rightarrow>
                  (case QueryUnescape value of
                     None \<Rightarrow> m
                   | Some value \<Rightarrow> m(key := m key @ [value])))))"

text \<open>
  \<^verbatim>\<open>func parseQuery(m Values, query string) (err error)\<close>: the loop
  \<^verbatim>\<open>for query != "" { key, query, _ = strings.Cut(query, "&"); ... }\<close>. Its error is
  what \<^verbatim>\<open>Query()\<close> drops, so only the map is returned.
\<close>

function parseQuery :: "Values \<Rightarrow> string \<Rightarrow> Values" where
  "parseQuery m query =
     (if query = [] then m
      else parseQuery (parseQuery_step m (fst (Cut query (CHR ''&''))))
             (snd (Cut query (CHR ''&''))))"
  by pat_completeness auto
termination
proof (relation "measure (\<lambda>(m, query). length query)")
  show "wf (measure (\<lambda>(m, query). length query))" by simp
next
  fix m :: Values and query :: string
  assume "query \<noteq> []"
  then have "length (drop 1 (dropWhile (\<lambda>c. c \<noteq> CHR ''&'') query)) < length query"
    using length_dropWhile_le [of "\<lambda>c. c \<noteq> CHR ''&''" query] by (cases query) auto
  then show "((parseQuery_step m (fst (Cut query (CHR ''&''))), snd (Cut query (CHR ''&''))),
      (m, query)) \<in> measure (\<lambda>(m, query). length query)"
    by (simp add: Cut_def)
qed

declare parseQuery.simps [simp del]

text \<open>\<^verbatim>\<open>func (u *URL) Query() Values\<close>, on \<^verbatim>\<open>u.RawQuery\<close>.\<close>

definition Query :: "string \<Rightarrow> Values" where
  "Query RawQuery = parseQuery (\<lambda>key. []) RawQuery"

text \<open>
  \<^verbatim>\<open>func handleHelloParameterized(w http.ResponseWriter, r *http.Request)\<close>. The
  request is given by \<^verbatim>\<open>r.URL.RawQuery\<close>, the text after the \<^verbatim>\<open>?\<close> of the request
  target.
\<close>

definition handleHelloParameterized :: "ResponseWriter \<Rightarrow> string \<Rightarrow> ResponseWriter" where
  "handleHelloParameterized w RawQuery =
     (let params = Query RawQuery;
          userlist = params ''user'';
          username = ''User'';
          username = (if length userlist > 0 then hd userlist else username)
      in handleHello w username)"

text \<open>
  \<^verbatim>\<open>func handleJSON(w http.ResponseWriter, r *http.Request)\<close>. The request is given by
  what \<^verbatim>\<open>io.ReadAll(r.Body)\<close> returns: \<open>None\<close> for an error, \<open>Some byteData\<close> for the
  bytes read. \<^verbatim>\<open>json.Unmarshal\<close> into a \<^verbatim>\<open>UserData\<close> belongs to the standard library
  and is a parameter: \<open>None\<close> when it returns an error, \<open>Some reqData\<close> for the value it
  has filled in.
\<close>

definition handleJSON ::
  "(string \<Rightarrow> UserData option) \<Rightarrow> ResponseWriter \<Rightarrow> string option \<Rightarrow> ResponseWriter" where
  "handleJSON json_Unmarshal w body =
     (case body of
        None \<Rightarrow> http_Error w ''bad request body'' StatusBadRequest
      | Some byteData \<Rightarrow>
          if length byteData = 0 then http_Error w ''empty request body'' StatusBadRequest
          else
            (case json_Unmarshal byteData of
               None \<Rightarrow> http_Error w ''error parsing request body'' StatusBadRequest
             | Some reqData \<Rightarrow>
                 if Name reqData = [] then http_Error w ''invalid request body!'' StatusBadRequest
                 else handleHello w (Name reqData)))"

text \<open>
  A decoder for concrete evaluations. It gives the results of \<^verbatim>\<open>json.Unmarshal\<close> on the
  two bodies that \<^verbatim>\<open>main_test.go\<close> marshals, \<^verbatim>\<open>{"Name":"human"}\<close> and
  \<^verbatim>\<open>{"Name":""}\<close>, and rejects every other body, the unterminated object \<^verbatim>\<open>{\<close>
  among them.
\<close>

definition test_json_Unmarshal :: "string \<Rightarrow> UserData option" where
  "test_json_Unmarshal byteData =
     (if byteData = ''{\"Name\":\"human\"}'' then Some \<lparr>Name = ''human''\<rparr>
      else if byteData = ''{\"Name\":\"\"}'' then Some \<lparr>Name = []\<rparr>
      else None)"

section \<open>Properties of the registry\<close>

subsection \<open>The lookup\<close>

lemma scan_None: "scan i us first last' = None \<longleftrightarrow>
    (\<forall>u \<in> set us. \<not> (FirstName u = first \<and> LastName u = last'))"
  by (induction us arbitrary: i) auto

lemma scan_Some_iff: "scan i us first last' = Some k \<longleftrightarrow>
    (\<exists>n. k = i + n \<and> n < length us \<and>
     FirstName (us ! n) = first \<and> LastName (us ! n) = last' \<and>
     (\<forall>j < n. \<not> (FirstName (us ! j) = first \<and> LastName (us ! j) = last')))"
proof (induction us arbitrary: i)
  case Nil
  show ?case by simp
next
  case (Cons u us)
  show ?case
  proof (cases "FirstName u = first \<and> LastName u = last'")
    case True
    have "n = 0" if "\<forall>j<n. \<not> (FirstName ((u # us) ! j) = first \<and> LastName ((u # us) ! j) = last')"
      for n
    proof (rule ccontr)
      assume "n \<noteq> 0"
      then have "0 < n" by simp
      with that True show False by fastforce
    qed
    then have "(\<exists>n. k = i + n \<and> n < length (u # us) \<and>
        FirstName ((u # us) ! n) = first \<and> LastName ((u # us) ! n) = last' \<and>
        (\<forall>j<n. \<not> (FirstName ((u # us) ! j) = first \<and> LastName ((u # us) ! j) = last')))
      \<longleftrightarrow> k = i"
      using True by auto
    moreover have "scan i (u # us) first last' = Some i"
      using True by simp
    ultimately show ?thesis by auto
  next
    case False
    have step: "scan i (u # us) first last' = scan (Suc i) us first last'"
      using False by auto
    show ?thesis
      unfolding step Cons.IH
    proof
      assume "\<exists>n. k = Suc i + n \<and> n < length us \<and>
        FirstName (us ! n) = first \<and> LastName (us ! n) = last' \<and>
        (\<forall>j<n. \<not> (FirstName (us ! j) = first \<and> LastName (us ! j) = last'))"
      then obtain n where n: "k = Suc i + n" "n < length us"
        "FirstName (us ! n) = first" "LastName (us ! n) = last'"
        "\<forall>j<n. \<not> (FirstName (us ! j) = first \<and> LastName (us ! j) = last')"
        by blast
      have "\<forall>j<Suc n. \<not> (FirstName ((u # us) ! j) = first \<and> LastName ((u # us) ! j) = last')"
        using n(5) False by (auto simp: nth_Cons split: nat.splits)
      with n show "\<exists>n. k = i + n \<and> n < length (u # us) \<and>
        FirstName ((u # us) ! n) = first \<and> LastName ((u # us) ! n) = last' \<and>
        (\<forall>j<n. \<not> (FirstName ((u # us) ! j) = first \<and> LastName ((u # us) ! j) = last'))"
        by (intro exI[of _ "Suc n"]) simp
    next
      assume "\<exists>n. k = i + n \<and> n < length (u # us) \<and>
        FirstName ((u # us) ! n) = first \<and> LastName ((u # us) ! n) = last' \<and>
        (\<forall>j<n. \<not> (FirstName ((u # us) ! j) = first \<and> LastName ((u # us) ! j) = last'))"
      then obtain n where n: "k = i + n" "n < length (u # us)"
        "FirstName ((u # us) ! n) = first" "LastName ((u # us) ! n) = last'"
        "\<forall>j<n. \<not> (FirstName ((u # us) ! j) = first \<and> LastName ((u # us) ! j) = last')"
        by blast
      from n(3,4) False obtain n' where n': "n = Suc n'"
        by (cases n) auto
      have "\<forall>j<n'. \<not> (FirstName (us ! j) = first \<and> LastName (us ! j) = last')"
      proof (intro allI impI)
        fix j assume "j < n'"
        then have "Suc j < n" using n' by simp
        with n(5) show "\<not> (FirstName (us ! j) = first \<and> LastName (us ! j) = last')"
          by fastforce
      qed
      with n n' show "\<exists>n. k = Suc i + n \<and> n < length us \<and>
        FirstName (us ! n) = first \<and> LastName (us ! n) = last' \<and>
        (\<forall>j<n. \<not> (FirstName (us ! j) = first \<and> LastName (us ! j) = last'))"
        by (intro exI[of _ n']) simp
    qed
  qed
qed

lemma GetUserByName_eq:
  "GetUserByName m first last' =
     (m, scan 0 (users m) first last',
      if scan 0 (users m) first last' = None then Some ErrNoResultFound else None)"
  by (simp add: GetUserByName_def split: option.splits)

lemma AddUser_eq:
  "AddUser ParseAddress m firstName lastName email =
     (if firstName = [] then (m, Some (InvalidFirstName firstName))
      else if lastName = [] then (m, Some (InvalidLastName lastName))
      else if \<exists>u \<in> set (users m). FirstName u = firstName \<and> LastName u = lastName
        then (m, Some UserAlreadyExists)
      else case ParseAddress email of
          None \<Rightarrow> (m, Some (InvalidEmail email))
        | Some a \<Rightarrow>
           (m\<lparr>users := users m @ [\<lparr>FirstName = firstName, LastName = lastName, Email = a\<rparr>]\<rparr>,
            None))"
proof (cases "scan 0 (users m) firstName lastName")
  case None
  then have "\<not> (\<exists>u \<in> set (users m). FirstName u = firstName \<and> LastName u = lastName)"
    by (simp add: scan_None)
  with None show ?thesis
    by (auto simp: AddUser_def GetUserByName_eq split: option.splits)
next
  case (Some i)
  then have "scan 0 (users m) firstName lastName \<noteq> None" by simp
  then have "\<exists>u \<in> set (users m). FirstName u = firstName \<and> LastName u = lastName"
    by (simp add: scan_None)
  with Some show ?thesis
    by (auto simp: AddUser_def GetUserByName_eq)
qed

subsection \<open>The lookup: first match in insertion order\<close>

text \<open>
  C6. \<^verbatim>\<open>GetUserByName(first, last)\<close> goes through the sequence in insertion order
  (\<^verbatim>\<open>AddUser\<close> appends at the end) and returns the pointer to the first record whose
  \<^verbatim>\<open>FirstName\<close> equals \<open>first\<close> and whose \<^verbatim>\<open>LastName\<close> equals \<open>last\<close>, as byte
  sequences: it returns position \<open>i\<close> with a nil error exactly when record \<open>i\<close> has both
  names and no record before it has. It returns nil with \<^verbatim>\<open>ErrNoResultFound\<close> exactly
  when no record has both names, whatever the registry and the arguments (an empty
  registry, empty arguments, one matching field only); and where some record has both
  names, a position is returned.
\<close>

theorem GetUserByName_first_match:
  "(\<forall>i. snd (GetUserByName m first last') = (Some i, None) \<longleftrightarrow>
        i < length (users m) \<and>
        FirstName (users m ! i) = first \<and> LastName (users m ! i) = last' \<and>
        (\<forall>j < i. \<not> (FirstName (users m ! j) = first \<and> LastName (users m ! j) = last'))) \<and>
   (snd (GetUserByName m first last') = (None, Some ErrNoResultFound) \<longleftrightarrow>
        (\<forall>u \<in> set (users m). \<not> (FirstName u = first \<and> LastName u = last'))) \<and>
   ((\<exists>u \<in> set (users m). FirstName u = first \<and> LastName u = last') \<longrightarrow>
        (\<exists>i. snd (GetUserByName m first last') = (Some i, None)))"
proof (intro conjI allI)
  fix i
  show "snd (GetUserByName m first last') = (Some i, None) \<longleftrightarrow>
        i < length (users m) \<and>
        FirstName (users m ! i) = first \<and> LastName (users m ! i) = last' \<and>
        (\<forall>j < i. \<not> (FirstName (users m ! j) = first \<and> LastName (users m ! j) = last'))"
  proof (cases "scan 0 (users m) first last'")
    case None
    then have "\<forall>u \<in> set (users m). \<not> (FirstName u = first \<and> LastName u = last')"
      by (simp add: scan_None)
    then have "i < length (users m) \<Longrightarrow>
        \<not> (FirstName (users m ! i) = first \<and> LastName (users m ! i) = last')"
      using nth_mem by blast
    with None show ?thesis
      by (auto simp: GetUserByName_eq)
  next
    case (Some k)
    then show ?thesis
      using scan_Some_iff [of 0 "users m" first last' i]
      by (simp add: GetUserByName_eq)
  qed
next
  show "snd (GetUserByName m first last') = (None, Some ErrNoResultFound) \<longleftrightarrow>
        (\<forall>u \<in> set (users m). \<not> (FirstName u = first \<and> LastName u = last'))"
    by (auto simp: GetUserByName_eq scan_None)
next
  show "(\<exists>u \<in> set (users m). FirstName u = first \<and> LastName u = last') \<longrightarrow>
        (\<exists>i. snd (GetUserByName m first last') = (Some i, None))"
  proof
    assume "\<exists>u \<in> set (users m). FirstName u = first \<and> LastName u = last'"
    then have "scan 0 (users m) first last' \<noteq> None"
      by (simp add: scan_None)
    then show "\<exists>i. snd (GetUserByName m first last') = (Some i, None)"
      by (auto simp: GetUserByName_eq)
  qed
qed

text \<open>
  On the registry of \<^verbatim>\<open>TestGetUserByName\<close>: \<^verbatim>\<open>("bari", "foo")\<close> is found at
  position 1; \<^verbatim>\<open>("fozz", "fozz")\<close> matches one field of a record only, \<^verbatim>\<open>("Foo", "bar")\<close>
  differs from a record in case, \<^verbatim>\<open>("foo ", "bar")\<close> in a trailing blank and
  \<^verbatim>\<open>("fo", "bar")\<close> is a prefix, and none of them is found; nor is anything in the
  empty registry.
\<close>

theorem GetUserByName_first_match_witness:
  "snd (GetUserByName \<lparr>users = test_users\<rparr> ''bari'' ''foo'') = (Some 1, None) \<and>
   snd (GetUserByName \<lparr>users = test_users\<rparr> ''fozz'' ''fozz'') = (None, Some ErrNoResultFound) \<and>
   snd (GetUserByName \<lparr>users = test_users\<rparr> ''Foo'' ''bar'') = (None, Some ErrNoResultFound) \<and>
   snd (GetUserByName \<lparr>users = test_users\<rparr> ''foo '' ''bar'') = (None, Some ErrNoResultFound) \<and>
   snd (GetUserByName \<lparr>users = test_users\<rparr> ''fo'' ''bar'') = (None, Some ErrNoResultFound) \<and>
   snd (GetUserByName \<lparr>users = test_users\<rparr> [] ''foo'') = (None, Some ErrNoResultFound) \<and>
   snd (GetUserByName NewManager ''foo'' ''bar'') = (None, Some ErrNoResultFound)"
proof -
  let ?m = "\<lparr>users = test_users\<rparr>"
  have found: "1 < length (users ?m) \<and>
      FirstName (users ?m ! 1) = ''bari'' \<and> LastName (users ?m ! 1) = ''foo'' \<and>
      (\<forall>j < 1. \<not> (FirstName (users ?m ! j) = ''bari'' \<and> LastName (users ?m ! j) = ''foo''))"
    by (simp add: test_users_def)
  have absent:
    "\<forall>u \<in> set (users ?m). \<not> (FirstName u = ''fozz'' \<and> LastName u = ''fozz'')"
    "\<forall>u \<in> set (users ?m). \<not> (FirstName u = ''Foo'' \<and> LastName u = ''bar'')"
    "\<forall>u \<in> set (users ?m). \<not> (FirstName u = ''foo '' \<and> LastName u = ''bar'')"
    "\<forall>u \<in> set (users ?m). \<not> (FirstName u = ''fo'' \<and> LastName u = ''bar'')"
    "\<forall>u \<in> set (users ?m). \<not> (FirstName u = [] \<and> LastName u = ''foo'')"
    "\<forall>u \<in> set (users NewManager). \<not> (FirstName u = ''foo'' \<and> LastName u = ''bar'')"
    by (simp_all add: test_users_def NewManager_def)
  note fm = GetUserByName_first_match
  have "snd (GetUserByName ?m ''bari'' ''foo'') = (Some 1, None)"
    using found fm [of ?m "''bari''" "''foo''", THEN conjunct1, THEN spec, of 1] by (rule iffD2 [rotated])
  moreover have "snd (GetUserByName ?m ''fozz'' ''fozz'') = (None, Some ErrNoResultFound)"
    using absent(1) fm [of ?m "''fozz''" "''fozz''", THEN conjunct2, THEN conjunct1] by (rule iffD2 [rotated])
  moreover have "snd (GetUserByName ?m ''Foo'' ''bar'') = (None, Some ErrNoResultFound)"
    using absent(2) fm [of ?m "''Foo''" "''bar''", THEN conjunct2, THEN conjunct1] by (rule iffD2 [rotated])
  moreover have "snd (GetUserByName ?m ''foo '' ''bar'') = (None, Some ErrNoResultFound)"
    using absent(3) fm [of ?m "''foo ''" "''bar''", THEN conjunct2, THEN conjunct1] by (rule iffD2 [rotated])
  moreover have "snd (GetUserByName ?m ''fo'' ''bar'') = (None, Some ErrNoResultFound)"
    using absent(4) fm [of ?m "''fo''" "''bar''", THEN conjunct2, THEN conjunct1] by (rule iffD2 [rotated])
  moreover have "snd (GetUserByName ?m [] ''foo'') = (None, Some ErrNoResultFound)"
    using absent(5) fm [of ?m "[]" "''foo''", THEN conjunct2, THEN conjunct1] by (rule iffD2 [rotated])
  moreover have "snd (GetUserByName NewManager ''foo'' ''bar'') = (None, Some ErrNoResultFound)"
    using absent(6) fm [of NewManager "''foo''" "''bar''", THEN conjunct2, THEN conjunct1] by (rule iffD2 [rotated])
  ultimately show ?thesis by (intro conjI)
qed

subsection \<open>The lookup leaves the registry as it is\<close>

text \<open>
  C10. \<^verbatim>\<open>GetUserByName\<close> never modifies the registry: for every registry and
  every pair of arguments the registry after the call is the registry before it, so the
  record sequence has the same length, order and fields, whether a record is found or
  \<^verbatim>\<open>ErrNoResultFound\<close> is returned. (The call only reads \<^verbatim>\<open>m.users\<close>; what a
  caller later does through the returned pointer is not part of the call.)
\<close>

theorem GetUserByName_frame:
  "fst (GetUserByName m first last') = m \<and>
   users (fst (GetUserByName m first last')) = users m"
  by (simp add: GetUserByName_eq)

text \<open>
  On the registry of \<^verbatim>\<open>TestGetUserByName\<close>, for a lookup that finds its record and
  for one that does not.
\<close>

theorem GetUserByName_frame_witness:
  "fst (GetUserByName \<lparr>users = test_users\<rparr> ''bari'' ''foo'') = \<lparr>users = test_users\<rparr> \<and>
   snd (GetUserByName \<lparr>users = test_users\<rparr> ''bari'' ''foo'') = (Some 1, None) \<and>
   fst (GetUserByName \<lparr>users = test_users\<rparr> ''fozz'' ''fozz'') = \<lparr>users = test_users\<rparr> \<and>
   snd (GetUserByName \<lparr>users = test_users\<rparr> ''fozz'' ''fozz'') = (None, Some ErrNoResultFound)"
proof -
  let ?m = "\<lparr>users = test_users\<rparr>"
  have "fst (GetUserByName ?m ''bari'' ''foo'') = ?m"
    by (rule GetUserByName_frame [where m = ?m, THEN conjunct1])
  moreover have "snd (GetUserByName ?m ''bari'' ''foo'') = (Some 1, None)"
    by (simp add: GetUserByName_def test_users_def)
  moreover have "fst (GetUserByName ?m ''fozz'' ''fozz'') = ?m"
    by (rule GetUserByName_frame [where m = ?m, THEN conjunct1])
  moreover have "snd (GetUserByName ?m ''fozz'' ''fozz'') = (None, Some ErrNoResultFound)"
    by (simp add: GetUserByName_def test_users_def)
  ultimately show ?thesis by (intro conjI)
qed

subsection \<open>The lookup error branch of \<^verbatim>\<open>AddUser\<close>\<close>

text \<open>
  C8. \<^verbatim>\<open>GetUserByName\<close> returns either a pointer with a nil error or nil with
  \<^verbatim>\<open>ErrNoResultFound\<close>, and nothing else; so the condition
  \<^verbatim>\<open>err != nil && !errors.Is(err, ErrNoResultFound)\<close> of \<^verbatim>\<open>AddUser\<close> is false
  after every lookup, and no call of \<^verbatim>\<open>AddUser\<close> returns the error of that branch,
  \<^verbatim>\<open>"error getting user by name: ..."\<close>.
\<close>

theorem AddUser_lookup_error_unreachable:
  "((\<exists>i. snd (GetUserByName m first last') = (Some i, None)) \<or>
      snd (GetUserByName m first last') = (None, Some ErrNoResultFound)) \<and>
   (case GetUserByName m first last' of
      (m1, existinguser, err) \<Rightarrow> \<not> (err \<noteq> None \<and> \<not> errors_Is err ErrNoResultFound)) \<and>
   snd (AddUser ParseAddress m firstName lastName email) \<noteq> Some (GetUserFailed e)"
proof (intro conjI)
  show "(\<exists>i. snd (GetUserByName m first last') = (Some i, None)) \<or>
      snd (GetUserByName m first last') = (None, Some ErrNoResultFound)"
    by (cases "scan 0 (users m) first last'") (simp_all add: GetUserByName_eq)
  show "case GetUserByName m first last' of
      (m1, existinguser, err) \<Rightarrow> \<not> (err \<noteq> None \<and> \<not> errors_Is err ErrNoResultFound)"
    by (simp add: GetUserByName_eq)
  show "snd (AddUser ParseAddress m firstName lastName email) \<noteq> Some (GetUserFailed e)"
    by (simp add: AddUser_eq split: option.splits)
qed

text \<open>
  Both outcomes of the lookup on the registry of \<^verbatim>\<open>TestGetUserByName\<close>, and a call
  of \<^verbatim>\<open>AddUser\<close> that goes past the branch to the duplicate check.
\<close>

theorem AddUser_lookup_error_unreachable_witness:
  "snd (GetUserByName \<lparr>users = test_users\<rparr> ''foo'' ''bar'') = (Some 0, None) \<and>
   snd (GetUserByName \<lparr>users = test_users\<rparr> ''foo'' ''foo'') = (None, Some ErrNoResultFound) \<and>
   snd (AddUser test_ParseAddress \<lparr>users = test_users\<rparr> ''foo'' ''bar'' ''foo@bar.com'')
     \<noteq> Some (GetUserFailed ErrNoResultFound) \<and>
   snd (AddUser test_ParseAddress \<lparr>users = test_users\<rparr> ''foo'' ''bar'' ''foo@bar.com'')
     = Some UserAlreadyExists"
proof -
  let ?m = "\<lparr>users = test_users\<rparr>"
  have "snd (GetUserByName ?m ''foo'' ''bar'') = (Some 0, None)"
    by (simp add: GetUserByName_def test_users_def)
  moreover have "snd (GetUserByName ?m ''foo'' ''foo'') = (None, Some ErrNoResultFound)"
    by (simp add: GetUserByName_def test_users_def)
  moreover have "snd (AddUser test_ParseAddress ?m ''foo'' ''bar'' ''foo@bar.com'')
      \<noteq> Some (GetUserFailed ErrNoResultFound)"
    by (rule AddUser_lookup_error_unreachable
          [where m = ?m and first = "''foo''" and last' = "''bar''",
           THEN conjunct2, THEN conjunct2])
  moreover have "snd (AddUser test_ParseAddress ?m ''foo'' ''bar'' ''foo@bar.com'')
      = Some UserAlreadyExists"
    by (simp add: AddUser_def GetUserByName_def test_users_def)
  ultimately show ?thesis by (intro conjI)
qed

subsection \<open>Adding a user\<close>

lemma AddUser_invariant:
  "registry_invariant m \<Longrightarrow>
     registry_invariant (fst (AddUser ParseAddress m firstName lastName email))"
  by (auto simp: AddUser_eq registry_invariant_def split: option.splits)

lemma GetUserByName_invariant:
  "registry_invariant m \<Longrightarrow> registry_invariant (fst (GetUserByName m first last'))"
  by (simp add: GetUserByName_eq)

lemma NewManager_invariant: "registry_invariant NewManager"
  by (simp add: registry_invariant_def NewManager_def)

lemma reachable_invariant: "reachable ParseAddress m \<Longrightarrow> registry_invariant m"
  by (induction rule: reachable.induct)
     (simp_all add: NewManager_invariant AddUser_invariant GetUserByName_invariant)

text \<open>
  The invariant read by positions: records at two different positions differ in their
  pair of names, and the record at every position has two non-empty names.
\<close>

lemma registry_invariant_nth:
  "registry_invariant m \<longleftrightarrow>
     (\<forall>i < length (users m). \<forall>j < length (users m). i \<noteq> j \<longrightarrow>
        (FirstName (users m ! i), LastName (users m ! i)) \<noteq>
        (FirstName (users m ! j), LastName (users m ! j))) \<and>
     (\<forall>i < length (users m). FirstName (users m ! i) \<noteq> [] \<and> LastName (users m ! i) \<noteq> [])"
  unfolding registry_invariant_def distinct_conv_nth all_set_conv_all_nth
  by simp

text \<open>
  C1. For every registry and every call \<^verbatim>\<open>AddUser(first, last, email)\<close> with
  non-empty \<open>first\<close> and \<open>last\<close> for which a record with the same pair of names is
  present, the call fails with the duplicate error (\<^verbatim>\<open>"user already exists"\<close>) and
  the registry is unchanged, so no record is created. In particular, when a pair is added
  to the empty registry and added again (with any email), the first call succeeds and
  leaves one record, and the second fails with the duplicate error and leaves the
  registry as it was, at size 1.
\<close>

theorem AddUser_duplicate:
  "(firstName \<noteq> [] \<and> lastName \<noteq> [] \<and>
    (\<exists>u \<in> set (users m). FirstName u = firstName \<and> LastName u = lastName) \<longrightarrow>
      AddUser ParseAddress m firstName lastName email = (m, Some UserAlreadyExists)) \<and>
   (firstName \<noteq> [] \<and> lastName \<noteq> [] \<and> ParseAddress email \<noteq> None \<longrightarrow>
      (case AddUser ParseAddress NewManager firstName lastName email of
         (m1, err1) \<Rightarrow>
           err1 = None \<and> length (users m1) = 1 \<and>
           AddUser ParseAddress m1 firstName lastName email' = (m1, Some UserAlreadyExists)))"
  by (auto simp: AddUser_eq NewManager_def)

text \<open>
  A duplicate of the second record of the registry of \<^verbatim>\<open>TestGetUserByName\<close>, and the
  two calls of \<^verbatim>\<open>TestAddUserDuplicateName\<close>.
\<close>

theorem AddUser_duplicate_witness:
  "AddUser test_ParseAddress \<lparr>users = test_users\<rparr> ''bari'' ''foo'' ''foo@bar.com''
     = (\<lparr>users = test_users\<rparr>, Some UserAlreadyExists) \<and>
   (case AddUser test_ParseAddress NewManager ''jhon'' ''smith'' ''foo@bar.com'' of
      (m1, err1) \<Rightarrow>
        err1 = None \<and> length (users m1) = 1 \<and>
        AddUser test_ParseAddress m1 ''jhon'' ''smith'' ''foo@bar.com''
          = (m1, Some UserAlreadyExists))"
proof -
  let ?m = "\<lparr>users = test_users\<rparr>"
  have "AddUser test_ParseAddress ?m ''bari'' ''foo'' ''foo@bar.com''
      = (?m, Some UserAlreadyExists)"
    by (rule AddUser_duplicate [where m = ?m, THEN conjunct1, THEN mp])
       (simp add: test_users_def)
  moreover
  have "case AddUser test_ParseAddress NewManager ''jhon'' ''smith'' ''foo@bar.com'' of
      (m1, err1) \<Rightarrow>
        err1 = None \<and> length (users m1) = 1 \<and>
        AddUser test_ParseAddress m1 ''jhon'' ''smith'' ''foo@bar.com''
          = (m1, Some UserAlreadyExists)"
    by (rule AddUser_duplicate [where m = NewManager, THEN conjunct2, THEN mp])
       (simp add: test_ParseAddress_def)
  ultimately show ?thesis by (intro conjI)
qed

text \<open>
  C2. \<^verbatim>\<open>AddUser\<close> checks, in this order, the empty first name, the empty last name,
  the duplicate pair and the email: the error returned is the one of the first check
  that fails, and the call succeeds when none fails. So every call with an empty first
  name fails with the empty-first-name error, whatever the other arguments and the
  registry are.
\<close>

theorem AddUser_check_order:
  "(firstName = [] \<longrightarrow>
      snd (AddUser ParseAddress m firstName lastName email) = Some (InvalidFirstName firstName)) \<and>
   (firstName \<noteq> [] \<and> lastName = [] \<longrightarrow>
      snd (AddUser ParseAddress m firstName lastName email) = Some (InvalidLastName lastName)) \<and>
   (firstName \<noteq> [] \<and> lastName \<noteq> [] \<and>
    (\<exists>u \<in> set (users m). FirstName u = firstName \<and> LastName u = lastName) \<longrightarrow>
      snd (AddUser ParseAddress m firstName lastName email) = Some UserAlreadyExists) \<and>
   (firstName \<noteq> [] \<and> lastName \<noteq> [] \<and>
    \<not> (\<exists>u \<in> set (users m). FirstName u = firstName \<and> LastName u = lastName) \<and>
    ParseAddress email = None \<longrightarrow>
      snd (AddUser ParseAddress m firstName lastName email) = Some (InvalidEmail email)) \<and>
   (firstName \<noteq> [] \<and> lastName \<noteq> [] \<and>
    \<not> (\<exists>u \<in> set (users m). FirstName u = firstName \<and> LastName u = lastName) \<and>
    ParseAddress email \<noteq> None \<longrightarrow>
      snd (AddUser ParseAddress m firstName lastName email) = None)"
  by (auto simp: AddUser_eq)

text \<open>
  Calls on the registry of \<^verbatim>\<open>TestGetUserByName\<close> that fail one check after the
  other: a call with an empty first name, an empty last name and an unparseable email
  reports the first name; with a present pair and an unparseable email, the duplicate.
\<close>

theorem AddUser_check_order_witness:
  "snd (AddUser test_ParseAddress \<lparr>users = test_users\<rparr> [] [] ''foobar'')
     = Some (InvalidFirstName []) \<and>
   snd (AddUser test_ParseAddress \<lparr>users = test_users\<rparr> [] ''bar'' ''foobar'')
     = Some (InvalidFirstName []) \<and>
   snd (AddUser test_ParseAddress \<lparr>users = test_users\<rparr> ''foo'' [] ''foobar'')
     = Some (InvalidLastName []) \<and>
   snd (AddUser test_ParseAddress \<lparr>users = test_users\<rparr> ''foo'' ''bar'' ''foobar'')
     = Some UserAlreadyExists \<and>
   snd (AddUser test_ParseAddress \<lparr>users = test_users\<rparr> ''jhon'' ''smith'' ''foobar'')
     = Some (InvalidEmail ''foobar'') \<and>
   snd (AddUser test_ParseAddress \<lparr>users = test_users\<rparr> ''jhon'' ''smith'' ''foo@bar.com'')
     = None"
proof -
  let ?m = "\<lparr>users = test_users\<rparr>"
  note order = AddUser_check_order [where ParseAddress = test_ParseAddress and m = ?m]
  have "snd (AddUser test_ParseAddress ?m [] [] ''foobar'') = Some (InvalidFirstName [])"
    by (rule order [THEN conjunct1, THEN mp]) simp
  moreover
  have "snd (AddUser test_ParseAddress ?m [] ''bar'' ''foobar'') = Some (InvalidFirstName [])"
    by (rule order [THEN conjunct1, THEN mp]) simp
  moreover
  have "snd (AddUser test_ParseAddress ?m ''foo'' [] ''foobar'') = Some (InvalidLastName [])"
    by (rule order [THEN conjunct2, THEN conjunct1, THEN mp]) simp
  moreover
  have "snd (AddUser test_ParseAddress ?m ''foo'' ''bar'' ''foobar'') = Some UserAlreadyExists"
    by (rule order [THEN conjunct2, THEN conjunct2, THEN conjunct1, THEN mp])
       (simp add: test_users_def)
  moreover
  have "snd (AddUser test_ParseAddress ?m ''jhon'' ''smith'' ''foobar'')
      = Some (InvalidEmail ''foobar'')"
    by (rule order [THEN conjunct2, THEN conjunct2, THEN conjunct2, THEN conjunct1, THEN mp])
       (simp add: test_users_def test_ParseAddress_def)
  moreover
  have "snd (AddUser test_ParseAddress ?m ''jhon'' ''smith'' ''foo@bar.com'') = None"
    by (rule order [THEN conjunct2, THEN conjunct2, THEN conjunct2, THEN conjunct2, THEN mp])
       (simp add: test_users_def test_ParseAddress_def)
  ultimately show ?thesis by (intro conjI)
qed

text \<open>
  C4. Every call of \<^verbatim>\<open>AddUser\<close> that returns an error, whatever the error, leaves
  the registry exactly as it was before the call.
\<close>

theorem AddUser_failure_unchanged:
  "snd (AddUser ParseAddress m firstName lastName email) \<noteq> None \<longrightarrow>
     fst (AddUser ParseAddress m firstName lastName email) = m \<and>
     users (fst (AddUser ParseAddress m firstName lastName email)) = users m"
  by (auto simp: AddUser_eq split: option.splits)

text \<open>
  One failing call for each of the four reasons, on the registry of
  \<^verbatim>\<open>TestGetUserByName\<close>.
\<close>

theorem AddUser_failure_unchanged_witness:
  "fst (AddUser test_ParseAddress \<lparr>users = test_users\<rparr> [] ''smith'' ''foo@bar.com'')
     = \<lparr>users = test_users\<rparr> \<and>
   fst (AddUser test_ParseAddress \<lparr>users = test_users\<rparr> ''jhon'' [] ''foo@bar.com'')
     = \<lparr>users = test_users\<rparr> \<and>
   fst (AddUser test_ParseAddress \<lparr>users = test_users\<rparr> ''foo'' ''bar'' ''foo@bar.com'')
     = \<lparr>users = test_users\<rparr> \<and>
   fst (AddUser test_ParseAddress \<lparr>users = test_users\<rparr> ''jhon'' ''smith'' ''foobar'')
     = \<lparr>users = test_users\<rparr> \<and>
   snd (AddUser test_ParseAddress \<lparr>users = test_users\<rparr> ''jhon'' ''smith'' ''foobar'')
     = Some (InvalidEmail ''foobar'')"
proof -
  let ?m = "\<lparr>users = test_users\<rparr>"
  note unchanged = AddUser_failure_unchanged
    [where ParseAddress = test_ParseAddress and m = ?m, THEN mp, THEN conjunct1]
  have "fst (AddUser test_ParseAddress ?m [] ''smith'' ''foo@bar.com'') = ?m"
    by (rule unchanged) (simp add: AddUser_def)
  moreover have "fst (AddUser test_ParseAddress ?m ''jhon'' [] ''foo@bar.com'') = ?m"
    by (rule unchanged) (simp add: AddUser_def)
  moreover have "fst (AddUser test_ParseAddress ?m ''foo'' ''bar'' ''foo@bar.com'') = ?m"
    by (rule unchanged) (simp add: AddUser_def GetUserByName_def test_users_def)
  moreover have "fst (AddUser test_ParseAddress ?m ''jhon'' ''smith'' ''foobar'') = ?m"
    by (rule unchanged)
       (simp add: AddUser_def GetUserByName_def test_users_def test_ParseAddress_def)
  moreover have "snd (AddUser test_ParseAddress ?m ''jhon'' ''smith'' ''foobar'')
      = Some (InvalidEmail ''foobar'')"
    by (simp add: AddUser_def GetUserByName_def test_users_def test_ParseAddress_def)
  ultimately show ?thesis by (intro conjI)
qed

text \<open>
  C5, as the code has it. For non-empty \<open>first\<close> and \<open>last\<close>, an email that
  \<^verbatim>\<open>mail.ParseAddress\<close> accepts, and a registry with no record of the same pair of
  names, \<^verbatim>\<open>AddUser(first, last, email)\<close> returns no error and appends one record, and a
  following \<^verbatim>\<open>GetUserByName(first, last)\<close> returns, with no error, a pointer to a record
  whose \<^verbatim>\<open>FirstName\<close> is \<open>first\<close>, whose \<^verbatim>\<open>LastName\<close> is \<open>last\<close> and whose
  \<^verbatim>\<open>Email\<close> is the \<^verbatim>\<open>mail.Address\<close> that \<^verbatim>\<open>mail.ParseAddress\<close> returned for
  \<open>email\<close>.
\<close>

theorem AddUser_success_lookup:
  "firstName \<noteq> [] \<and> lastName \<noteq> [] \<and> ParseAddress email = Some a \<and>
   \<not> (\<exists>u \<in> set (users m). FirstName u = firstName \<and> LastName u = lastName) \<longrightarrow>
     (case AddUser ParseAddress m firstName lastName email of
        (m1, err) \<Rightarrow>
          err = None \<and>
          users m1 = users m @ [\<lparr>FirstName = firstName, LastName = lastName, Email = a\<rparr>] \<and>
          (case GetUserByName m1 firstName lastName of
             (m2, p, err2) \<Rightarrow>
               err2 = None \<and> m2 = m1 \<and>
               deref m2 p = Some \<lparr>FirstName = firstName, LastName = lastName, Email = a\<rparr>))"
proof
  assume h: "firstName \<noteq> [] \<and> lastName \<noteq> [] \<and> ParseAddress email = Some a \<and>
   \<not> (\<exists>u \<in> set (users m). FirstName u = firstName \<and> LastName u = lastName)"
  let ?u = "\<lparr>FirstName = firstName, LastName = lastName, Email = a\<rparr>"
  let ?m1 = "m\<lparr>users := users m @ [?u]\<rparr>"
  have add: "AddUser ParseAddress m firstName lastName email = (?m1, None)"
    using h by (simp add: AddUser_eq)
  have "scan 0 (users ?m1) firstName lastName = Some (0 + length (users m))"
    unfolding scan_Some_iff using h
    by (intro exI [of _ "length (users m)"]) (auto simp: nth_append)
  then have get: "GetUserByName ?m1 firstName lastName = (?m1, Some (length (users m)), None)"
    by (simp add: GetUserByName_eq)
  have "deref ?m1 (Some (length (users m))) = Some ?u"
    by (simp add: deref_def)
  with add get show "case AddUser ParseAddress m firstName lastName email of
        (m1, err) \<Rightarrow>
          err = None \<and>
          users m1 = users m @ [\<lparr>FirstName = firstName, LastName = lastName, Email = a\<rparr>] \<and>
          (case GetUserByName m1 firstName lastName of
             (m2, p, err2) \<Rightarrow>
               err2 = None \<and> m2 = m1 \<and>
               deref m2 p = Some \<lparr>FirstName = firstName, LastName = lastName, Email = a\<rparr>)"
    by simp
qed

text \<open>
  The scenario of the specification: after \<^verbatim>\<open>("foo", "bar", "f.foo@bar.com")\<close>, adding
  \<^verbatim>\<open>("bari", "foo", "bar@bar.com")\<close> succeeds and the lookup of \<^verbatim>\<open>("bari", "foo")\<close>
  returns the second record.
\<close>

theorem AddUser_success_lookup_witness:
  "(case AddUser test_ParseAddress
           \<lparr>users = [\<lparr>FirstName = ''foo'', LastName = ''bar'',
                      Email = \<lparr>Addr_Name = [], Addr_Address = ''f.foo@bar.com''\<rparr>\<rparr>]\<rparr>
           ''bari'' ''foo'' ''bar@bar.com'' of
      (m1, err) \<Rightarrow>
        err = None \<and>
        users m1 =
          users \<lparr>users = [\<lparr>FirstName = ''foo'', LastName = ''bar'',
                      Email = \<lparr>Addr_Name = [], Addr_Address = ''f.foo@bar.com''\<rparr>\<rparr>]\<rparr> @
          [\<lparr>FirstName = ''bari'', LastName = ''foo'',
            Email = \<lparr>Addr_Name = [], Addr_Address = ''bar@bar.com''\<rparr>\<rparr>] \<and>
        (case GetUserByName m1 ''bari'' ''foo'' of
           (m2, p, err2) \<Rightarrow>
             err2 = None \<and> m2 = m1 \<and>
             deref m2 p =
               Some \<lparr>FirstName = ''bari'', LastName = ''foo'',
                     Email = \<lparr>Addr_Name = [], Addr_Address = ''bar@bar.com''\<rparr>\<rparr>))"
  by (rule AddUser_success_lookup [THEN mp]) (simp add: test_ParseAddress_def)

text \<open>
  C5 as stated, that the record found has exactly the three values passed in, fails for
  the email: \<^verbatim>\<open>AddUser("jhon", "smith", "<foo@bar.com>")\<close>, the call of
  \<^verbatim>\<open>TestAddUserDuplicateName\<close>, stores the address \<^verbatim>\<open>foo@bar.com\<close>, and for
  \<^verbatim>\<open>"Jhon Smith <jhon@example.com>"\<close> the display name and the address are stored
  apart; in neither record is the address the string that was passed in.
\<close>

theorem AddUser_email_counterexample:
  "(case AddUser test_ParseAddress NewManager ''jhon'' ''smith'' ''<foo@bar.com>'' of
      (m1, err) \<Rightarrow>
        err = None \<and>
        (case GetUserByName m1 ''jhon'' ''smith'' of
           (m2, p, err2) \<Rightarrow>
             err2 = None \<and>
             deref m2 p =
               Some \<lparr>FirstName = ''jhon'', LastName = ''smith'',
                     Email = \<lparr>Addr_Name = [], Addr_Address = ''foo@bar.com''\<rparr>\<rparr> \<and>
             map_option (\<lambda>u. Addr_Address (Email u)) (deref m2 p) \<noteq> Some ''<foo@bar.com>'')) \<and>
   (case AddUser test_ParseAddress NewManager ''jhon'' ''smith''
           ''Jhon Smith <jhon@example.com>'' of
      (m1, err) \<Rightarrow>
        err = None \<and>
        (case GetUserByName m1 ''jhon'' ''smith'' of
           (m2, p, err2) \<Rightarrow>
             err2 = None \<and>
             deref m2 p =
               Some \<lparr>FirstName = ''jhon'', LastName = ''smith'',
                     Email = \<lparr>Addr_Name = ''Jhon Smith'',
                               Addr_Address = ''jhon@example.com''\<rparr>\<rparr> \<and>
             map_option (\<lambda>u. Addr_Address (Email u)) (deref m2 p)
               \<noteq> Some ''Jhon Smith <jhon@example.com>''))"
  by (simp add: AddUser_eq GetUserByName_def NewManager_def test_ParseAddress_def deref_def)

subsection \<open>The registry invariant\<close>

text \<open>
  C3. The registry invariant (no two records with the same pair of names, both names of
  every record non-empty) holds in the empty registry, is preserved by \<^verbatim>\<open>AddUser\<close>
  and by \<^verbatim>\<open>GetUserByName\<close> with any arguments, and so holds in every reachable state
  of the registry.
\<close>

theorem registry_invariant_reachable:
  "registry_invariant NewManager \<and>
   (registry_invariant m \<longrightarrow>
      registry_invariant (fst (AddUser ParseAddress m firstName lastName email))) \<and>
   (registry_invariant m \<longrightarrow> registry_invariant (fst (GetUserByName m first last'))) \<and>
   (reachable ParseAddress m' \<longrightarrow> registry_invariant m')"
  by (simp add: NewManager_invariant AddUser_invariant GetUserByName_invariant
      reachable_invariant)

text \<open>
  The state after the call of \<^verbatim>\<open>TestAddUser\<close> is reachable and satisfies the
  invariant; the registry of \<^verbatim>\<open>TestGetUserByName\<close> satisfies it, and a sequence that
  repeats its records does not.
\<close>

theorem registry_invariant_reachable_witness:
  "registry_invariant NewManager \<and>
   reachable test_ParseAddress
     (fst (AddUser test_ParseAddress NewManager ''jhon'' ''smith'' ''foo@bar.com'')) \<and>
   registry_invariant
     (fst (AddUser test_ParseAddress NewManager ''jhon'' ''smith'' ''foo@bar.com'')) \<and>
   users (fst (AddUser test_ParseAddress NewManager ''jhon'' ''smith'' ''foo@bar.com'')) =
     [\<lparr>FirstName = ''jhon'', LastName = ''smith'',
       Email = \<lparr>Addr_Name = [], Addr_Address = ''foo@bar.com''\<rparr>\<rparr>] \<and>
   registry_invariant \<lparr>users = test_users\<rparr> \<and>
   \<not> registry_invariant \<lparr>users = test_users @ test_users\<rparr>"
proof -
  let ?m = "fst (AddUser test_ParseAddress NewManager ''jhon'' ''smith'' ''foo@bar.com'')"
  have r: "reachable test_ParseAddress ?m"
    by (rule reachable_add [OF reachable_new])
  have "registry_invariant NewManager"
    by (rule registry_invariant_reachable [THEN conjunct1])
  moreover have "registry_invariant ?m"
    using r
    by (rule registry_invariant_reachable
          [THEN conjunct2, THEN conjunct2, THEN conjunct2, THEN mp])
  moreover have "users ?m =
     [\<lparr>FirstName = ''jhon'', LastName = ''smith'',
       Email = \<lparr>Addr_Name = [], Addr_Address = ''foo@bar.com''\<rparr>\<rparr>]"
    by (simp add: AddUser_def GetUserByName_def NewManager_def test_ParseAddress_def)
  moreover have "registry_invariant \<lparr>users = test_users\<rparr>"
    by (simp add: registry_invariant_def test_users_def)
  moreover have "\<not> registry_invariant \<lparr>users = test_users @ test_users\<rparr>"
    by (simp add: registry_invariant_def test_users_def)
  ultimately show ?thesis using r by (intro conjI)
qed

section \<open>Properties of the handlers\<close>

text \<open>
  On a fresh recorder \<^verbatim>\<open>handleHello\<close> answers 200 with the greeting, and
  \<^verbatim>\<open>http.Error\<close> answers the given status with the message and a newline.
\<close>

lemma handleHello_eq:
  "handleHello NewRecorder username =
     \<lparr>Code = 200, wroteHeader = True, Body = ''Hello '' @ username @ ''!\<newline>''\<rparr>"
  by (simp add: handleHello_def Write_def WriteHeader_def NewRecorder_def)

lemma http_Error_eq:
  "http_Error NewRecorder err code =
     \<lparr>Code = code, wroteHeader = True, Body = err @ ''\<newline>''\<rparr>"
  by (simp add: http_Error_def Write_def WriteHeader_def NewRecorder_def)

subsection \<open>The query of a request\<close>

text \<open>
  One turn of the loop of \<^verbatim>\<open>parseQuery\<close> takes the piece before the first
  \<^verbatim>\<open>&\<close>; the values of a key are those of the first piece followed by those of the
  rest of the query.
\<close>

lemma Cut_first:
  "sep \<notin> set piece \<Longrightarrow> Cut (piece @ sep # rest) sep = (piece, rest)"
  by (induction piece) (auto simp: Cut_def)

lemma Cut_none: "sep \<notin> set piece \<Longrightarrow> Cut piece sep = (piece, [])"
  by (induction piece) (auto simp: Cut_def)

lemma parseQuery_Nil: "parseQuery m [] = m"
  by (simp add: parseQuery.simps)

lemma parseQuery_Cons:
  "parseQuery m (c # query) =
     parseQuery (parseQuery_step m (fst (Cut (c # query) (CHR ''&''))))
       (snd (Cut (c # query) (CHR ''&'')))"
  by (subst parseQuery.simps) simp

lemma parseQuery_amp:
  "CHR ''&'' \<notin> set piece \<Longrightarrow>
     parseQuery m (piece @ CHR ''&'' # rest) = parseQuery (parseQuery_step m piece) rest"
  by (subst parseQuery.simps) (simp add: Cut_first)

lemma parseQuery_step_Nil: "parseQuery_step m [] = m"
  by (simp add: parseQuery_step_def)

lemma parseQuery_last:
  "CHR ''&'' \<notin> set piece \<Longrightarrow> parseQuery m piece = parseQuery_step m piece"
  by (subst parseQuery.simps) (simp add: Cut_none parseQuery_Nil parseQuery_step_Nil)

lemma parseQuery_step_append:
  "parseQuery_step m piece k = m k @ parseQuery_step (\<lambda>key. []) piece k"
  by (simp add: parseQuery_step_def split: prod.splits option.splits)

lemma parseQuery_append:
  "parseQuery m query k = m k @ parseQuery (\<lambda>key. []) query k"
proof (induction query arbitrary: m rule: length_induct)
  case (1 query)
  show ?case
  proof (cases "query = []")
    case True
    then show ?thesis by (simp add: parseQuery_Nil)
  next
    case False
    let ?piece = "fst (Cut query (CHR ''&''))"
    let ?rest = "snd (Cut query (CHR ''&''))"
    have shorter: "length ?rest < length query"
      using False length_dropWhile_le [of "\<lambda>c. c \<noteq> CHR ''&''" query]
      by (cases query) (auto simp: Cut_def)
    have unfold: "parseQuery m' query = parseQuery (parseQuery_step m' ?piece) ?rest" for m'
      using False by (subst parseQuery.simps) simp
    have "parseQuery m query k = parseQuery_step m ?piece k @ parseQuery (\<lambda>key. []) ?rest k"
      using "1.IH" shorter unfold by metis
    also have "\<dots> = m k @ parseQuery_step (\<lambda>key. []) ?piece k @ parseQuery (\<lambda>key. []) ?rest k"
      using parseQuery_step_append [of m ?piece k] by simp
    also have "parseQuery_step (\<lambda>key. []) ?piece k @ parseQuery (\<lambda>key. []) ?rest k
        = parseQuery (\<lambda>key. []) query k"
      using "1.IH" shorter unfold by metis
    finally show ?thesis .
  qed
qed

lemma Query_amp:
  "CHR ''&'' \<notin> set piece \<Longrightarrow>
     Query (piece @ CHR ''&'' # rest) k = parseQuery_step (\<lambda>key. []) piece k @ Query rest k"
  unfolding Query_def
  by (simp add: parseQuery_amp parseQuery_append [of "parseQuery_step (\<lambda>key. []) piece"])

lemma Query_last:
  "CHR ''&'' \<notin> set piece \<Longrightarrow> Query piece k = parseQuery_step (\<lambda>key. []) piece k"
  by (simp add: Query_def parseQuery_last)

lemma QueryUnescape_plain:
  "CHR ''%'' \<notin> set s \<Longrightarrow> CHR ''+'' \<notin> set s \<Longrightarrow> QueryUnescape s = Some s"
  by (induction s) auto

lemma parseQuery_step_accept:
  "CHR '';'' \<notin> set piece \<Longrightarrow> piece \<noteq> [] \<Longrightarrow>
   QueryUnescape (fst (Cut piece (CHR ''=''))) = Some key \<Longrightarrow>
   QueryUnescape (snd (Cut piece (CHR ''=''))) = Some val \<Longrightarrow>
     parseQuery_step m piece = m(key := m key @ [val])"
  by (auto simp: parseQuery_step_def split: prod.splits option.splits)

lemma parseQuery_step_user_plain:
  assumes "CHR '';'' \<notin> set name" "CHR ''%'' \<notin> set name" "CHR ''+'' \<notin> set name"
  shows "parseQuery_step (\<lambda>key. []) (''user='' @ name) ''user'' = [name]"
proof -
  have cut: "Cut (''user='' @ name) (CHR ''='') = (''user'', name)"
    by (simp add: Cut_def)
  have "QueryUnescape name = Some name"
    using assms by (simp add: QueryUnescape_plain)
  with cut assms show ?thesis
    by (simp add: parseQuery_step_def)
qed

lemma parseQuery_step_user_accept:
  assumes "CHR '';'' \<notin> set piece"
    and "QueryUnescape (fst (Cut piece (CHR ''=''))) = Some ''user''"
    and "QueryUnescape (snd (Cut piece (CHR ''=''))) = Some v"
  shows "parseQuery_step (\<lambda>key. []) piece ''user'' = [v]"
proof -
  have "piece \<noteq> []"
    using assms(2) by (auto simp: Cut_def)
  with assms show ?thesis
    by (simp add: parseQuery_step_accept)
qed

lemma parseQuery_step_user_skip:
  assumes "CHR '';'' \<in> set piece \<or> piece = [] \<or>
      QueryUnescape (fst (Cut piece (CHR ''=''))) = None \<or>
      QueryUnescape (snd (Cut piece (CHR ''=''))) = None \<or>
      (\<exists>key. QueryUnescape (fst (Cut piece (CHR ''=''))) = Some key \<and> key \<noteq> ''user'')"
  shows "parseQuery_step (\<lambda>key. []) piece ''user'' = []"
  using assms by (auto simp: parseQuery_step_def split: prod.splits option.splits)

text \<open>
  The handler greets the first value of \<^verbatim>\<open>user\<close>, and \<^verbatim>\<open>User\<close> when there is
  none; a piece of the query with no value for \<^verbatim>\<open>user\<close> is passed over.
\<close>

lemma handleHelloParameterized_values:
  "handleHelloParameterized NewRecorder RawQuery =
     (case Query RawQuery ''user'' of
        [] \<Rightarrow> \<lparr>Code = 200, wroteHeader = True, Body = ''Hello User!\<newline>''\<rparr>
      | v # vs \<Rightarrow> \<lparr>Code = 200, wroteHeader = True, Body = ''Hello '' @ v @ ''!\<newline>''\<rparr>)"
  by (simp add: handleHelloParameterized_def handleHello_eq Let_def split: list.splits)

lemma handleHelloParameterized_skip:
  assumes "CHR ''&'' \<notin> set piece"
    and "parseQuery_step (\<lambda>key. []) piece ''user'' = []"
  shows "handleHelloParameterized NewRecorder (piece @ CHR ''&'' # rest) =
           handleHelloParameterized NewRecorder rest"
    and "handleHelloParameterized NewRecorder piece =
           \<lparr>Code = 200, wroteHeader = True, Body = ''Hello User!\<newline>''\<rparr>"
  using assms by (simp_all add: handleHelloParameterized_values Query_amp Query_last)

lemma handleHelloParameterized_accept:
  assumes "CHR ''&'' \<notin> set piece"
    and "parseQuery_step (\<lambda>key. []) piece ''user'' = [v]"
  shows "handleHelloParameterized NewRecorder (piece @ CHR ''&'' # rest) =
           \<lparr>Code = 200, wroteHeader = True, Body = ''Hello '' @ v @ ''!\<newline>''\<rparr>"
    and "handleHelloParameterized NewRecorder piece =
           \<lparr>Code = 200, wroteHeader = True, Body = ''Hello '' @ v @ ''!\<newline>''\<rparr>"
  using assms by (simp_all add: handleHelloParameterized_values Query_amp Query_last)

text \<open>
  A query whose first \<^verbatim>\<open>user\<close> pair the parse drops.
\<close>

lemma Query_semicolon_pair: "Query ''user=a;b&user=Bob'' ''user'' = [''Bob'']"
  by (simp add: Query_def parseQuery_Cons parseQuery_Nil Cut_def parseQuery_step_def)

subsection \<open>The query parameter of \<^verbatim>\<open>/hello/\<close>\<close>

text \<open>
  C9, as the handler has it. The \<^verbatim>\<open>/hello/\<close> handler answers 200 and greets the
  first value that \<^verbatim>\<open>r.URL.Query()\<close> holds for \<^verbatim>\<open>user\<close>, and greets \<^verbatim>\<open>User\<close>
  when it holds none. A first value that is the empty string gives the body
  \<^verbatim>\<open>"Hello !\n"\<close>, not the default name: \<^verbatim>\<open>/hello/?user=\<close> and
  \<^verbatim>\<open>/hello/?user=&...\<close> are answered so. The value greeted is the unescaped value of
  the first \<^verbatim>\<open>&\<close>-separated piece of the query string that the parse accepts with the
  key \<^verbatim>\<open>user\<close>: a piece \<^verbatim>\<open>user=name\<close> whose name has none of
  \<^verbatim>\<open>& ; % +\<close> is greeted by that name, whatever follows it; a piece that contains a
  semicolon, is empty, has a key or a value with a malformed \<^verbatim>\<open>%\<close>-escape, or has
  another key is passed over, and the answer is that of the rest of the query.
\<close>

theorem handleHelloParameterized_first_user:
  "(Query RawQuery ''user'' = v # vs \<longrightarrow>
      handleHelloParameterized NewRecorder RawQuery =
        \<lparr>Code = 200, wroteHeader = True, Body = ''Hello '' @ v @ ''!\<newline>''\<rparr>) \<and>
   (Query RawQuery ''user'' = [] \<longrightarrow>
      handleHelloParameterized NewRecorder RawQuery =
        \<lparr>Code = 200, wroteHeader = True, Body = ''Hello User!\<newline>''\<rparr>) \<and>
   handleHelloParameterized NewRecorder ''user='' =
        \<lparr>Code = 200, wroteHeader = True, Body = ''Hello !\<newline>''\<rparr> \<and>
   handleHelloParameterized NewRecorder (''user=&'' @ rest) =
        \<lparr>Code = 200, wroteHeader = True, Body = ''Hello !\<newline>''\<rparr> \<and>
   (CHR ''&'' \<notin> set name \<and> CHR '';'' \<notin> set name \<and>
    CHR ''%'' \<notin> set name \<and> CHR ''+'' \<notin> set name \<longrightarrow>
      handleHelloParameterized NewRecorder (''user='' @ name) =
        \<lparr>Code = 200, wroteHeader = True, Body = ''Hello '' @ name @ ''!\<newline>''\<rparr> \<and>
      handleHelloParameterized NewRecorder (''user='' @ name @ CHR ''&'' # rest) =
        \<lparr>Code = 200, wroteHeader = True, Body = ''Hello '' @ name @ ''!\<newline>''\<rparr>) \<and>
   (CHR ''&'' \<notin> set piece \<and> CHR '';'' \<notin> set piece \<and>
    QueryUnescape (fst (Cut piece (CHR ''=''))) = Some ''user'' \<and>
    QueryUnescape (snd (Cut piece (CHR ''=''))) = Some v \<longrightarrow>
      handleHelloParameterized NewRecorder piece =
        \<lparr>Code = 200, wroteHeader = True, Body = ''Hello '' @ v @ ''!\<newline>''\<rparr> \<and>
      handleHelloParameterized NewRecorder (piece @ CHR ''&'' # rest) =
        \<lparr>Code = 200, wroteHeader = True, Body = ''Hello '' @ v @ ''!\<newline>''\<rparr>) \<and>
   (CHR ''&'' \<notin> set piece \<and>
    (CHR '';'' \<in> set piece \<or> piece = [] \<or>
     QueryUnescape (fst (Cut piece (CHR ''=''))) = None \<or>
     QueryUnescape (snd (Cut piece (CHR ''=''))) = None \<or>
     (\<exists>key. QueryUnescape (fst (Cut piece (CHR ''=''))) = Some key \<and> key \<noteq> ''user'')) \<longrightarrow>
      handleHelloParameterized NewRecorder piece =
        \<lparr>Code = 200, wroteHeader = True, Body = ''Hello User!\<newline>''\<rparr> \<and>
      handleHelloParameterized NewRecorder (piece @ CHR ''&'' # rest) =
        handleHelloParameterized NewRecorder rest)"
proof (intro conjI impI)
  assume "Query RawQuery ''user'' = v # vs"
  then show "handleHelloParameterized NewRecorder RawQuery =
        \<lparr>Code = 200, wroteHeader = True, Body = ''Hello '' @ v @ ''!\<newline>''\<rparr>"
    by (simp add: handleHelloParameterized_values)
next
  assume "Query RawQuery ''user'' = []"
  then show "handleHelloParameterized NewRecorder RawQuery =
        \<lparr>Code = 200, wroteHeader = True, Body = ''Hello User!\<newline>''\<rparr>"
    by (simp add: handleHelloParameterized_values)
next
  have step: "parseQuery_step (\<lambda>key. []) (''user='' @ []) ''user'' = [[]]"
    by (rule parseQuery_step_user_plain) simp_all
  have amp: "CHR ''&'' \<notin> set ''user=''" by simp
  show "handleHelloParameterized NewRecorder ''user='' =
        \<lparr>Code = 200, wroteHeader = True, Body = ''Hello !\<newline>''\<rparr>"
    using handleHelloParameterized_accept(2) [OF amp, of "[]"] step by simp
  show "handleHelloParameterized NewRecorder (''user=&'' @ rest) =
        \<lparr>Code = 200, wroteHeader = True, Body = ''Hello !\<newline>''\<rparr>"
    using handleHelloParameterized_accept(1) [OF amp, of "[]" rest] step by simp
next
  assume h: "CHR ''&'' \<notin> set name \<and> CHR '';'' \<notin> set name \<and>
    CHR ''%'' \<notin> set name \<and> CHR ''+'' \<notin> set name"
  then have step: "parseQuery_step (\<lambda>key. []) (''user='' @ name) ''user'' = [name]"
    by (intro parseQuery_step_user_plain) simp_all
  have amp: "CHR ''&'' \<notin> set (''user='' @ name)" using h by simp
  show "handleHelloParameterized NewRecorder (''user='' @ name) =
        \<lparr>Code = 200, wroteHeader = True, Body = ''Hello '' @ name @ ''!\<newline>''\<rparr>"
    by (rule handleHelloParameterized_accept(2) [OF amp step])
  show "handleHelloParameterized NewRecorder (''user='' @ name @ CHR ''&'' # rest) =
        \<lparr>Code = 200, wroteHeader = True, Body = ''Hello '' @ name @ ''!\<newline>''\<rparr>"
    using handleHelloParameterized_accept(1) [OF amp step, of rest] by simp
next
  assume h: "CHR ''&'' \<notin> set piece \<and> CHR '';'' \<notin> set piece \<and>
    QueryUnescape (fst (Cut piece (CHR ''=''))) = Some ''user'' \<and>
    QueryUnescape (snd (Cut piece (CHR ''=''))) = Some v"
  then have step: "parseQuery_step (\<lambda>key. []) piece ''user'' = [v]"
    by (simp add: parseQuery_step_user_accept)
  from h have amp: "CHR ''&'' \<notin> set piece" by simp
  show "handleHelloParameterized NewRecorder piece =
        \<lparr>Code = 200, wroteHeader = True, Body = ''Hello '' @ v @ ''!\<newline>''\<rparr>"
    by (rule handleHelloParameterized_accept(2) [OF amp step])
  show "handleHelloParameterized NewRecorder (piece @ CHR ''&'' # rest) =
        \<lparr>Code = 200, wroteHeader = True, Body = ''Hello '' @ v @ ''!\<newline>''\<rparr>"
    by (rule handleHelloParameterized_accept(1) [OF amp step])
next
  assume h: "CHR ''&'' \<notin> set piece \<and>
    (CHR '';'' \<in> set piece \<or> piece = [] \<or>
     QueryUnescape (fst (Cut piece (CHR ''=''))) = None \<or>
     QueryUnescape (snd (Cut piece (CHR ''=''))) = None \<or>
     (\<exists>key. QueryUnescape (fst (Cut piece (CHR ''=''))) = Some key \<and> key \<noteq> ''user''))"
  then have step: "parseQuery_step (\<lambda>key. []) piece ''user'' = []"
    using parseQuery_step_user_skip [of piece] by blast
  from h have amp: "CHR ''&'' \<notin> set piece" by simp
  show "handleHelloParameterized NewRecorder piece =
        \<lparr>Code = 200, wroteHeader = True, Body = ''Hello User!\<newline>''\<rparr>"
    by (rule handleHelloParameterized_skip(2) [OF amp step])
  show "handleHelloParameterized NewRecorder (piece @ CHR ''&'' # rest) =
        handleHelloParameterized NewRecorder rest"
    by (rule handleHelloParameterized_skip(1) [OF amp step])
qed

text \<open>
  The queries \<^verbatim>\<open>user=\<close>, \<^verbatim>\<open>user=Testing\<close> (of \<^verbatim>\<open>TestHandleHelloParameterized\<close>),
  \<^verbatim>\<open>user=Ann&user=Bob\<close>, \<^verbatim>\<open>user=%zz&user=Bob\<close>, \<^verbatim>\<open>user=J%20D+x\<close>,
  \<^verbatim>\<open>foo=bar\<close> (of \<^verbatim>\<open>TestHandleHelloWrongParameterized\<close>) and the empty query (of
  \<^verbatim>\<open>TestHandleHelloNoParameterized\<close>).
\<close>

theorem handleHelloParameterized_first_user_witness:
  "handleHelloParameterized NewRecorder ''user='' =
     \<lparr>Code = 200, wroteHeader = True, Body = ''Hello !\<newline>''\<rparr> \<and>
   handleHelloParameterized NewRecorder ''user=Testing'' =
     \<lparr>Code = 200, wroteHeader = True, Body = ''Hello Testing!\<newline>''\<rparr> \<and>
   handleHelloParameterized NewRecorder ''user=Ann&user=Bob'' =
     \<lparr>Code = 200, wroteHeader = True, Body = ''Hello Ann!\<newline>''\<rparr> \<and>
   handleHelloParameterized NewRecorder ''user=%zz&user=Bob'' =
     \<lparr>Code = 200, wroteHeader = True, Body = ''Hello Bob!\<newline>''\<rparr> \<and>
   handleHelloParameterized NewRecorder ''user=J%20D+x'' =
     \<lparr>Code = 200, wroteHeader = True, Body = ''Hello J D x!\<newline>''\<rparr> \<and>
   handleHelloParameterized NewRecorder ''foo=bar'' =
     \<lparr>Code = 200, wroteHeader = True, Body = ''Hello User!\<newline>''\<rparr> \<and>
   handleHelloParameterized NewRecorder [] =
     \<lparr>Code = 200, wroteHeader = True, Body = ''Hello User!\<newline>''\<rparr>"
proof -
  note first_user = handleHelloParameterized_first_user
  note plain = first_user [THEN conjunct2, THEN conjunct2, THEN conjunct2, THEN conjunct2,
      THEN conjunct1, THEN mp]
  note accept = first_user [THEN conjunct2, THEN conjunct2, THEN conjunct2, THEN conjunct2,
      THEN conjunct2, THEN conjunct1, THEN mp]
  note skip = first_user [THEN conjunct2, THEN conjunct2, THEN conjunct2, THEN conjunct2,
      THEN conjunct2, THEN conjunct2, THEN mp]
  have "handleHelloParameterized NewRecorder ''user='' =
      \<lparr>Code = 200, wroteHeader = True, Body = ''Hello !\<newline>''\<rparr>"
    by (rule first_user [THEN conjunct2, THEN conjunct2, THEN conjunct1])
  moreover
  have "handleHelloParameterized NewRecorder (''user='' @ ''Testing'') =
      \<lparr>Code = 200, wroteHeader = True, Body = ''Hello '' @ ''Testing'' @ ''!\<newline>''\<rparr>"
    by (rule plain [THEN conjunct1]) simp
  moreover
  have "handleHelloParameterized NewRecorder (''user='' @ ''Ann'' @ CHR ''&'' # ''user=Bob'') =
      \<lparr>Code = 200, wroteHeader = True, Body = ''Hello '' @ ''Ann'' @ ''!\<newline>''\<rparr>"
    by (rule plain [THEN conjunct2]) simp
  moreover
  have bob: "handleHelloParameterized NewRecorder (''user='' @ ''Bob'') =
      \<lparr>Code = 200, wroteHeader = True, Body = ''Hello '' @ ''Bob'' @ ''!\<newline>''\<rparr>"
    by (rule plain [THEN conjunct1]) simp
  have "handleHelloParameterized NewRecorder (''user=%zz'' @ CHR ''&'' # ''user=Bob'') =
      handleHelloParameterized NewRecorder ''user=Bob''"
    by (rule skip [THEN conjunct2]) (simp add: Cut_def ishex_def)
  with bob have "handleHelloParameterized NewRecorder ''user=%zz&user=Bob'' =
      \<lparr>Code = 200, wroteHeader = True, Body = ''Hello Bob!\<newline>''\<rparr>"
    by simp
  moreover
  have escaped: "CHR ''&'' \<notin> set ''user=J%20D+x'' \<and> CHR '';'' \<notin> set ''user=J%20D+x'' \<and>
      QueryUnescape (fst (Cut ''user=J%20D+x'' (CHR ''=''))) = Some ''user'' \<and>
      QueryUnescape (snd (Cut ''user=J%20D+x'' (CHR ''=''))) = Some ''J D x''"
    by code_simp
  have "handleHelloParameterized NewRecorder ''user=J%20D+x'' =
      \<lparr>Code = 200, wroteHeader = True, Body = ''Hello '' @ ''J D x'' @ ''!\<newline>''\<rparr>"
    by (rule accept [THEN conjunct1, OF escaped])
  moreover
  have "handleHelloParameterized NewRecorder ''foo=bar'' =
      \<lparr>Code = 200, wroteHeader = True, Body = ''Hello User!\<newline>''\<rparr>"
    by (rule skip [THEN conjunct1]) (simp add: Cut_def)
  moreover
  have "handleHelloParameterized NewRecorder [] =
      \<lparr>Code = 200, wroteHeader = True, Body = ''Hello User!\<newline>''\<rparr>"
    by (rule skip [THEN conjunct1]) simp
  ultimately show ?thesis by simp
qed

text \<open>
  C9 as stated, that of several \<^verbatim>\<open>user\<close> parameters the first one in the query string
  is greeted, fails: in \<^verbatim>\<open>/hello/?user=a;b&user=Bob\<close> the first \<^verbatim>\<open>user\<close> parameter
  is \<^verbatim>\<open>a;b\<close>, the parse drops the pair for its semicolon, and the handler greets
  \<^verbatim>\<open>Bob\<close>.
\<close>

theorem handleHelloParameterized_semicolon_counterexample:
  "handleHelloParameterized NewRecorder ''user=a;b&user=Bob'' =
     \<lparr>Code = 200, wroteHeader = True, Body = ''Hello Bob!\<newline>''\<rparr> \<and>
   handleHelloParameterized NewRecorder ''user=a;b&user=Bob'' \<noteq>
     \<lparr>Code = 200, wroteHeader = True, Body = ''Hello a;b!\<newline>''\<rparr>"
  by (simp add: handleHelloParameterized_values Query_semicolon_pair)

subsection \<open>The responses of \<^verbatim>\<open>POST /json\<close>\<close>

text \<open>
  C7, as the handler has it. The \<^verbatim>\<open>POST /json\<close> handler answers 400 with body
  \<^verbatim>\<open>"empty request body\n"\<close> when the body is empty; 400 with body
  \<^verbatim>\<open>"error parsing request body\n"\<close> when the body is not empty and
  \<^verbatim>\<open>json.Unmarshal\<close> returns an error for it, as it does for malformed JSON; 400 with
  body \<^verbatim>\<open>"invalid request body!\n"\<close> when the body decodes and its \<^verbatim>\<open>Name\<close> is
  empty; and 200 with body \<^verbatim>\<open>"Hello {Name}!\n"\<close> when the body decodes and its
  \<^verbatim>\<open>Name\<close> is not empty. (A body that cannot be read gives 400 with
  \<^verbatim>\<open>"bad request body\n"\<close>.)
\<close>

theorem handleJSON_responses:
  "handleJSON json_Unmarshal NewRecorder None =
      \<lparr>Code = 400, wroteHeader = True, Body = ''bad request body\<newline>''\<rparr> \<and>
   handleJSON json_Unmarshal NewRecorder (Some []) =
      \<lparr>Code = 400, wroteHeader = True, Body = ''empty request body\<newline>''\<rparr> \<and>
   (byteData \<noteq> [] \<and> json_Unmarshal byteData = None \<longrightarrow>
      handleJSON json_Unmarshal NewRecorder (Some byteData) =
        \<lparr>Code = 400, wroteHeader = True, Body = ''error parsing request body\<newline>''\<rparr>) \<and>
   (byteData \<noteq> [] \<and> json_Unmarshal byteData = Some reqData \<and> Name reqData = [] \<longrightarrow>
      handleJSON json_Unmarshal NewRecorder (Some byteData) =
        \<lparr>Code = 400, wroteHeader = True, Body = ''invalid request body!\<newline>''\<rparr>) \<and>
   (byteData \<noteq> [] \<and> json_Unmarshal byteData = Some reqData \<and> Name reqData \<noteq> [] \<longrightarrow>
      handleJSON json_Unmarshal NewRecorder (Some byteData) =
        \<lparr>Code = 200, wroteHeader = True,
         Body = ''Hello '' @ Name reqData @ ''!\<newline>''\<rparr>)"
  by (simp add: handleJSON_def http_Error_eq handleHello_eq StatusBadRequest_def)

text \<open>
  The empty body of \<^verbatim>\<open>TestHandleJSONEmptyBody\<close>, the unterminated object \<^verbatim>\<open>{\<close>,
  and the bodies of \<^verbatim>\<open>TestHandleJSONEmptyNameFeild\<close> and \<^verbatim>\<open>TestHandleJSON\<close>.
\<close>

theorem handleJSON_responses_witness:
  "handleJSON test_json_Unmarshal NewRecorder (Some []) =
     \<lparr>Code = 400, wroteHeader = True, Body = ''empty request body\<newline>''\<rparr> \<and>
   handleJSON test_json_Unmarshal NewRecorder (Some ''{'') =
     \<lparr>Code = 400, wroteHeader = True, Body = ''error parsing request body\<newline>''\<rparr> \<and>
   handleJSON test_json_Unmarshal NewRecorder (Some ''{\"Name\":\"\"}'') =
     \<lparr>Code = 400, wroteHeader = True, Body = ''invalid request body!\<newline>''\<rparr> \<and>
   handleJSON test_json_Unmarshal NewRecorder (Some ''{\"Name\":\"human\"}'') =
     \<lparr>Code = 200, wroteHeader = True, Body = ''Hello human!\<newline>''\<rparr>"
proof -
  note responses = handleJSON_responses [where json_Unmarshal = test_json_Unmarshal]
  have "handleJSON test_json_Unmarshal NewRecorder (Some []) =
      \<lparr>Code = 400, wroteHeader = True, Body = ''empty request body\<newline>''\<rparr>"
    by (rule responses [THEN conjunct2, THEN conjunct1])
  moreover
  have "handleJSON test_json_Unmarshal NewRecorder (Some ''{'') =
      \<lparr>Code = 400, wroteHeader = True, Body = ''error parsing request body\<newline>''\<rparr>"
    by (rule responses [THEN conjunct2, THEN conjunct2, THEN conjunct1, THEN mp])
       (simp add: test_json_Unmarshal_def)
  moreover
  have "handleJSON test_json_Unmarshal NewRecorder (Some ''{\"Name\":\"\"}'') =
      \<lparr>Code = 400, wroteHeader = True, Body = ''invalid request body!\<newline>''\<rparr>"
    by (rule responses [where reqData = "\<lparr>Name = []\<rparr>",
          THEN conjunct2, THEN conjunct2, THEN conjunct2, THEN conjunct1, THEN mp])
       (simp add: test_json_Unmarshal_def)
  moreover
  have "handleJSON test_json_Unmarshal NewRecorder (Some ''{\"Name\":\"human\"}'') =
      \<lparr>Code = 200, wroteHeader = True,
       Body = ''Hello '' @ Name \<lparr>Name = ''human''\<rparr> @ ''!\<newline>''\<rparr>"
    by (rule responses [where reqData = "\<lparr>Name = ''human''\<rparr>",
          THEN conjunct2, THEN conjunct2, THEN conjunct2, THEN conjunct2, THEN mp])
       (simp add: test_json_Unmarshal_def)
  ultimately show ?thesis by simp
qed

text \<open>
  C7 as the specification states it, that malformed JSON is answered with
  \<^verbatim>\<open>"invalid request body!\n"\<close>, fails: the body \<^verbatim>\<open>{\<close> is malformed JSON, the
  decoder rejects it, and the handler answers \<^verbatim>\<open>"error parsing request body\n"\<close>.
\<close>

theorem handleJSON_malformed_counterexample:
  "test_json_Unmarshal ''{'' = None \<and>
   handleJSON test_json_Unmarshal NewRecorder (Some ''{'') =
     \<lparr>Code = 400, wroteHeader = True, Body = ''error parsing request body\<newline>''\<rparr> \<and>
   handleJSON test_json_Unmarshal NewRecorder (Some ''{'') \<noteq>
     \<lparr>Code = 400, wroteHeader = True, Body = ''invalid request body!\<newline>''\<rparr>"
  by (simp add: handleJSON_def http_Error_eq handleHello_eq StatusBadRequest_def
      test_json_Unmarshal_def)

end
